theory Spec2Isabelle
  imports Complex_Main
begin

section \<open>Numbers\<close>

text \<open>
  The server computes on JavaScript numbers. Positions and distances are modelled as
  reals (rounding and infinities are not modelled); counters, health points and
  inventories are integers. A coordinate read from a client message is modelled by its
  numeric value, or \<open>None\<close> when the field is absent or does not convert to a number:
  \<open>None\<close> is \<open>NaN\<close>, it propagates through arithmetic and every comparison with it is false.
\<close>

type_synonym num = "real option"

definition nsub :: "num \<Rightarrow> num \<Rightarrow> num" where
  "nsub a b = (case a of None \<Rightarrow> None
               | Some u \<Rightarrow> (case b of None \<Rightarrow> None | Some v \<Rightarrow> Some (u - v)))"

definition hypot :: "real \<Rightarrow> real \<Rightarrow> real" where
  "hypot u v = sqrt (u * u + v * v)"

definition nhypot :: "num \<Rightarrow> num \<Rightarrow> num" where
  "nhypot a b = (case a of None \<Rightarrow> None
                 | Some u \<Rightarrow> (case b of None \<Rightarrow> None | Some v \<Rightarrow> Some (hypot u v)))"

definition nlt :: "num \<Rightarrow> real \<Rightarrow> bool" where
  "nlt a c = (case a of None \<Rightarrow> False | Some u \<Rightarrow> u < c)"

definition ngt :: "num \<Rightarrow> real \<Rightarrow> bool" where
  "ngt a c = (case a of None \<Rightarrow> False | Some u \<Rightarrow> u > c)"

text \<open>\<^verbatim>\<open>function clamp(v,a,b){ return Math.max(a, Math.min(b, v)); }\<close>\<close>

definition clamp :: "real \<Rightarrow> real \<Rightarrow> real \<Rightarrow> real" where
  "clamp v a b = max a (min b v)"

text \<open>Decimal printing of a counter or a timestamp, as string concatenation does.\<close>

fun dec :: "nat \<Rightarrow> string" where
  "dec n = (if n < 10 then [''0123456789'' ! n]
            else dec (n div 10) @ [''0123456789'' ! (n mod 10)])"

declare dec.simps [simp del]

section \<open>The world\<close>

definition WORLD_W :: real where "WORLD_W = 3000"
definition WORLD_H :: real where "WORLD_H = 2000"
definition PLAYER_SPEED :: real where "PLAYER_SPEED = 220"
definition ACTION_RANGE :: real where "ACTION_RANGE = 80"
definition RES_NODE_TYPES :: "string list" where
  "RES_NODE_TYPES = [''tree'', ''rock'', ''berry'', ''wood'']"

record inventory =
  wood :: int
  stone :: int
  food :: int

record player =
  p_id :: string
  p_name :: string
  p_x :: real
  p_y :: real
  p_hp :: int
  p_kills :: int
  p_inv :: inventory
  p_lastActive :: nat

record node =
  n_id :: string
  n_type :: string
  n_x :: real
  n_y :: real
  n_hp :: int
  n_maxHp :: int
  n_respawnAt :: nat

record building =
  b_id :: string
  b_kind :: string
  b_x :: num
  b_y :: num
  b_owner :: string

text \<open>
  \<open>state.players\<close> is an object keyed by player id; a player is always stored under its
  own id, and the keys are iterated in insertion order. It is modelled as the list of
  players in insertion order, looked up by \<open>p_id\<close>.
\<close>

record state =
  players :: "player list"
  nodes :: "node list"
  buildings :: "building list"
  nextPlayerId :: nat

definition get_player :: "string \<Rightarrow> player list \<Rightarrow> player option" where
  "get_player i ps = find (\<lambda>q. p_id q = i) ps"

text \<open>Writing to the fields of a player object that lives in \<open>state.players\<close>.\<close>

definition put_player :: "player \<Rightarrow> player list \<Rightarrow> player list" where
  "put_player p ps = map (\<lambda>q. if p_id q = p_id p then p else q) ps"

definition store :: "state \<Rightarrow> player \<Rightarrow> state" where
  "store s p = s\<lparr>players := put_player p (players s)\<rparr>"

section \<open>Seeding and player creation\<close>

text \<open>
  Every call of \<open>Math.random()\<close> and \<open>Date.now()\<close> is an input of the model. A seeded node
  consumes five random numbers, in the order of the object literal.
\<close>

record seed_draw =
  d_type :: real
  d_x :: real
  d_y :: real
  d_hp :: real
  d_maxHp :: real

definition pick_type :: "real \<Rightarrow> string" where
  "pick_type r = (let k = \<lfloor>r * real (length RES_NODE_TYPES)\<rfloor>
                  in if 0 \<le> k \<and> nat k < length RES_NODE_TYPES
                     then RES_NODE_TYPES ! nat k else ''undefined'')"

definition seed_node :: "seed_draw \<Rightarrow> nat \<Rightarrow> node" where
  "seed_node d i =
     \<lparr>n_id = ''n'' @ dec i,
      n_type = pick_type (d_type d),
      n_x = d_x d * WORLD_W,
      n_y = d_y d * WORLD_H,
      n_hp = 30 + \<lfloor>d_hp d * 50\<rfloor>,
      n_maxHp = 30 + \<lfloor>d_maxHp d * 50\<rfloor>,
      n_respawnAt = 0\<rparr>"

definition seedNodes :: "(nat \<Rightarrow> seed_draw) \<Rightarrow> state \<Rightarrow> state" where
  "seedNodes ds s = s\<lparr>nodes := nodes s @ map (\<lambda>i. seed_node (ds i) i) [0..<80]\<rparr>"

definition empty_state :: state where
  "empty_state = \<lparr>players = [], nodes = [], buildings = [], nextPlayerId = 1\<rparr>"

definition init_state :: "(nat \<Rightarrow> seed_draw) \<Rightarrow> state" where
  "init_state ds = seedNodes ds empty_state"

text \<open>The random numbers and the random id suffix one message may consume.\<close>

record draws =
  r_x :: real
  r_y :: real
  r_suffix :: string

definition createPlayer :: "string \<Rightarrow> nat \<Rightarrow> draws \<Rightarrow> state \<Rightarrow> player \<times> state" where
  "createPlayer nm now rnd s =
     (let i = ''p'' @ dec (nextPlayerId s);
          p = \<lparr>p_id = i,
               p_name = (if nm = [] then ''Player'' @ i else nm),
               p_x = r_x rnd * WORLD_W,
               p_y = r_y rnd * WORLD_H,
               p_hp = 100,
               p_kills = 0,
               p_inv = \<lparr>wood = 0, stone = 0, food = 0\<rparr>,
               p_lastActive = now\<rparr>
      in (p, s\<lparr>players := (if get_player i (players s) = None then players s @ [p]
                             else put_player p (players s)),
               nextPlayerId := nextPlayerId s + 1\<rparr>))"

definition replace_char :: "char \<Rightarrow> string \<Rightarrow> string \<Rightarrow> string" where
  "replace_char c r s = concat (map (\<lambda>x. if x = c then r else [x]) s)"

definition sanitize :: "string \<Rightarrow> string" where
  "sanitize s = replace_char (CHR ''>'') ''&gt;'' (replace_char (CHR ''<'') ''&lt;'' s)"

section \<open>Client messages\<close>

record keys =
  k_up :: bool
  k_down :: bool
  k_left :: bool
  k_right :: bool

text \<open>
  A message is dispatched on its \<open>type\<close> (and \<open>action\<close>) field. \<open>Input ks dt\<close>: \<open>ks\<close> is
  \<open>None\<close> when \<open>msg.keys\<close> is absent, \<open>dt\<close> is \<open>None\<close> when absent and a number otherwise.
  \<open>Place kind x y\<close>: \<open>kind\<close> is \<open>None\<close> when the field is absent or not a string.
\<close>

datatype msg =
    Join "string option"
  | Input "keys option" "real option"
  | Chat "string option"
  | Place "string option" num num
  | Click num num
  | TapMove num num
  | OtherAction
  | SetName "string option"
  | Other

datatype payload = Unparseable | Null | Parsed msg

datatype error = TypeError

section \<open>handleClientMessage\<close>

definition direction :: "keys \<Rightarrow> real \<times> real" where
  "direction k =
     (let vx = 0; vy = 0;
          vy = (if k_up k then vy - 1 else vy);
          vy = (if k_down k then vy + 1 else vy);
          vx = (if k_left k then vx - 1 else vx);
          vx = (if k_right k then vx + 1 else vx)
      in (vx, vy))"

definition velocity :: "keys \<Rightarrow> real \<times> real" where
  "velocity k =
     (let (vx, vy) = direction k;
          mag = (if hypot vx vy = 0 then 1 else hypot vx vy)
      in (vx / mag * PLAYER_SPEED, vy / mag * PLAYER_SPEED))"

definition secs_of :: "real option \<Rightarrow> real" where
  "secs_of dt = (case dt of None \<Rightarrow> 100 | Some d \<Rightarrow> if d = 0 then 100 else d) / 1000"

definition move :: "player \<Rightarrow> keys \<Rightarrow> real option \<Rightarrow> player" where
  "move p k dt =
     (let secs = secs_of dt; (vx, vy) = velocity k
      in p\<lparr>p_x := clamp (p_x p + vx * secs) 0 WORLD_W,
           p_y := clamp (p_y p + vy * secs) 0 WORLD_H\<rparr>)"

text \<open>\<^verbatim>\<open>const cost = kind==="wall" ? {wood:5} : {wood:10, stone:5};\<close>\<close>

definition cost :: "string option \<Rightarrow> (string \<times> int) list" where
  "cost kind = (if kind = Some ''wall'' then [(''wood'', 5)] else [(''wood'', 10), (''stone'', 5)])"

definition inv_get :: "inventory \<Rightarrow> string \<Rightarrow> int" where
  "inv_get iv k = (if k = ''wood'' then wood iv else if k = ''stone'' then stone iv
                   else if k = ''food'' then food iv else 0)"

definition inv_sub :: "inventory \<Rightarrow> string \<times> int \<Rightarrow> inventory" where
  "inv_sub iv kc = (if fst kc = ''wood'' then iv\<lparr>wood := wood iv - snd kc\<rparr>
                    else if fst kc = ''stone'' then iv\<lparr>stone := stone iv - snd kc\<rparr>
                    else if fst kc = ''food'' then iv\<lparr>food := food iv - snd kc\<rparr>
                    else iv)"

definition enough :: "player \<Rightarrow> (string \<times> int) list \<Rightarrow> bool" where
  "enough p c = list_all (\<lambda>kc. inv_get (p_inv p) (fst kc) \<ge> snd kc) c"

definition mk_building_id :: "nat \<Rightarrow> string \<Rightarrow> string" where
  "mk_building_id now sfx = ''b'' @ dec now @ sfx"

definition place :: "state \<Rightarrow> player \<Rightarrow> string option \<Rightarrow> num \<Rightarrow> num \<Rightarrow> nat \<Rightarrow> draws \<Rightarrow> state" where
  "place s p kind x y now rnd =
     (let c = cost kind in
      if \<not> enough p c then s
      else if ngt (nhypot (nsub (Some (p_x p)) x) (nsub (Some (p_y p)) y)) ACTION_RANGE then s
      else
        let p' = p\<lparr>p_inv := foldl inv_sub (p_inv p) c\<rparr>;
            b = \<lparr>b_id = mk_building_id now (r_suffix rnd),
                 b_kind = (if kind = Some ''wall'' then ''wall'' else ''camp''),
                 b_x = x, b_y = y, b_owner = p_id p\<rparr>
        in (store s p')\<lparr>buildings := buildings s @ [b]\<rparr>)"

text \<open>The loop over \<open>state.players\<close>: the first other player within the hit radius.\<close>

fun find_target :: "string \<Rightarrow> num \<Rightarrow> num \<Rightarrow> player list \<Rightarrow> player option" where
  "find_target me mx my [] = None"
| "find_target me mx my (q # qs) =
     (if p_id q = me then find_target me mx my qs
      else if nlt (nhypot (nsub (Some (p_x q)) mx) (nsub (Some (p_y q)) my)) 40 then Some q
      else find_target me mx my qs)"

definition attack :: "state \<Rightarrow> player \<Rightarrow> player \<Rightarrow> draws \<Rightarrow> state" where
  "attack s p other rnd =
     (let h = p_hp other - 20 in
      if h \<le> 0 then
        let dropWood = min 5 (wood (p_inv other));
            p' = p\<lparr>p_kills := p_kills p + 1,
                   p_inv := (p_inv p)\<lparr>wood := wood (p_inv p) + dropWood div 2\<rparr>\<rparr>;
            other' = other\<lparr>p_hp := 100,
                           p_inv := (p_inv other)\<lparr>wood := max 0 (wood (p_inv other) - dropWood)\<rparr>,
                           p_x := r_x rnd * WORLD_W,
                           p_y := r_y rnd * WORLD_H\<rparr>
        in store (store s p') other'
      else store s (other\<lparr>p_hp := h\<rparr>))"

definition grant :: "player \<Rightarrow> string \<Rightarrow> player" where
  "grant p ty =
     (let p = (if ty = ''tree'' then p\<lparr>p_inv := (p_inv p)\<lparr>wood := wood (p_inv p) + 5\<rparr>\<rparr> else p);
          p = (if ty = ''rock'' then p\<lparr>p_inv := (p_inv p)\<lparr>stone := stone (p_inv p) + 3\<rparr>\<rparr> else p);
          p = (if ty = ''berry'' then p\<lparr>p_inv := (p_inv p)\<lparr>food := food (p_inv p) + 4\<rparr>\<rparr> else p);
          p = (if ty = ''wood'' then p\<lparr>p_inv := (p_inv p)\<lparr>wood := wood (p_inv p) + 8\<rparr>\<rparr> else p)
      in p)"

definition qualifies :: "player \<Rightarrow> num \<Rightarrow> num \<Rightarrow> node \<Rightarrow> bool" where
  "qualifies p mx my n \<longleftrightarrow>
     n_hp n > 0 \<and> nlt (nhypot (nsub (Some (n_x n)) mx) (nsub (Some (n_y n)) my)) 50
     \<and> hypot (p_x p - n_x n) (p_y p - n_y n) < ACTION_RANGE"

text \<open>The loop over \<open>state.nodes\<close>: the first qualifying node is hit, then the loop returns.\<close>

fun harvest :: "player \<Rightarrow> num \<Rightarrow> num \<Rightarrow> nat \<Rightarrow> node list \<Rightarrow> player \<times> node list" where
  "harvest p mx my now [] = (p, [])"
| "harvest p mx my now (n # ns) =
     (if qualifies p mx my n then
        (let h = n_hp n - 15 in
         if h \<le> 0 then (grant p (n_type n), n\<lparr>n_respawnAt := now + 30000, n_hp := 0\<rparr> # ns)
         else (p, n\<lparr>n_hp := h\<rparr> # ns))
      else (let (p', ns') = harvest p mx my now ns in (p', n # ns')))"

definition click :: "state \<Rightarrow> player \<Rightarrow> num \<Rightarrow> num \<Rightarrow> nat \<Rightarrow> draws \<Rightarrow> state" where
  "click s p mx my now rnd =
     (case find_target (p_id p) mx my (players s) of
        Some other \<Rightarrow> attack s p other rnd
      | None \<Rightarrow> (let (p', ns') = harvest p mx my now (nodes s)
                 in (store s p')\<lparr>nodes := ns'\<rparr>))"

definition tapMove :: "state \<Rightarrow> player \<Rightarrow> num \<Rightarrow> num \<Rightarrow> state" where
  "tapMove s p x y =
     (let dx = nsub x (Some (p_x p)); dy = nsub y (Some (p_y p)); dist = nhypot dx dy in
      if ngt dist 0 then
        (case (dx, dy, dist) of
           (Some dx', Some dy', Some d) \<Rightarrow>
             (let factor = min 1 (40 / d)
              in store s (p\<lparr>p_x := p_x p + dx' * factor, p_y := p_y p + dy' * factor\<rparr>))
         | _ \<Rightarrow> s)
      else s)"

text \<open>
  \<open>handleClientMessage s p msg now rnd\<close>: \<open>p\<close> is the acting player object, an entry of
  \<open>players s\<close>. Reading \<open>msg.keys.up\<close> when \<open>msg.keys\<close> is absent throws a \<open>TypeError\<close>, before
  anything is written. Chat only broadcasts; sending is not part of the state.
\<close>

definition handleClientMessage ::
  "state \<Rightarrow> player \<Rightarrow> msg \<Rightarrow> nat \<Rightarrow> draws \<Rightarrow> error + state" where
  "handleClientMessage s p m now rnd =
     (case m of
        Input ks dt \<Rightarrow> (case ks of None \<Rightarrow> Inl TypeError
                        | Some k \<Rightarrow> Inr (store s (move p k dt)))
      | Chat t \<Rightarrow> Inr s
      | Place kind x y \<Rightarrow> Inr (place s p kind x y now rnd)
      | Click mx my \<Rightarrow> Inr (click s p mx my now rnd)
      | TapMove x y \<Rightarrow> Inr (tapMove s p x y)
      | OtherAction \<Rightarrow> Inr s
      | SetName nm \<Rightarrow>
          Inr (store s (p\<lparr>p_name := take 16 (case nm of None \<Rightarrow> p_name p
                                                | Some t \<Rightarrow> if t = [] then p_name p else t)\<rparr>))
      | Join nm \<Rightarrow> Inr s
      | Other \<Rightarrow> Inr s)"

section \<open>The connection handlers\<close>

text \<open>
  \<open>on_message (pid, s) data t now rnd\<close> is the \<open>ws.on("message")\<close> handler of a connection
  whose bound player id is \<open>pid\<close>; \<open>t\<close> is the clock when \<open>lastActive\<close> is written, \<open>now\<close> the
  clock inside the handler. \<open>Unparseable\<close>: \<open>JSON.parse\<close> throws; \<open>Null\<close>: it returns
  \<open>null\<close> and reading \<open>msg.type\<close> throws. Every exception is caught and logged.
\<close>

definition on_message ::
  "string option \<times> state \<Rightarrow> payload \<Rightarrow> nat \<Rightarrow> nat \<Rightarrow> draws \<Rightarrow> string option \<times> state" where
  "on_message c data t now rnd =
     (let (pid, s) = c in
      case data of
        Unparseable \<Rightarrow> (pid, s)
      | Null \<Rightarrow> (pid, s)
      | Parsed m \<Rightarrow>
          (case m of
             Join nm \<Rightarrow>
               (let dflt = ''Player'' @ dec (nextPlayerId s);
                    raw = (case nm of None \<Rightarrow> dflt | Some t \<Rightarrow> if t = [] then dflt else t);
                    (p, s') = createPlayer (sanitize raw) now rnd s
                in (Some (p_id p), s'))
           | _ \<Rightarrow>
               (case pid of
                  None \<Rightarrow> (pid, s)
                | Some i \<Rightarrow>
                    (case get_player i (players s) of
                       None \<Rightarrow> (pid, s)
                     | Some player \<Rightarrow>
                         (let player' = player\<lparr>p_lastActive := t\<rparr>;
                              s1 = store s player'
                          in case handleClientMessage s1 player' m now rnd of
                               Inl e \<Rightarrow> (pid, s1)
                             | Inr s2 \<Rightarrow> (pid, s2))))))"

definition on_close :: "string option \<times> state \<Rightarrow> state" where
  "on_close c =
     (let (pid, s) = c in
      case pid of
        None \<Rightarrow> s
      | Some i \<Rightarrow> s\<lparr>players := filter (\<lambda>q. p_id q \<noteq> i) (players s)\<rparr>)"

section \<open>processRespawns\<close>

record respawn_draw =
  j_hp :: real
  j_x :: real
  j_y :: real

definition respawn_node :: "nat \<Rightarrow> respawn_draw \<Rightarrow> node \<Rightarrow> node" where
  "respawn_node nowt d n =
     (if n_hp n \<le> 0 \<and> n_respawnAt n \<noteq> 0 \<and> n_respawnAt n \<le> nowt then
        n\<lparr>n_hp := (if n_maxHp n \<noteq> 0 then n_maxHp n else 30 + \<lfloor>j_hp d * 50\<rfloor>),
          n_respawnAt := 0,
          n_x := clamp (n_x n + (j_x d - 0.5) * 80) 0 WORLD_W,
          n_y := clamp (n_y n + (j_y d - 0.5) * 80) 0 WORLD_H\<rparr>
      else n)"

definition processRespawns :: "nat \<Rightarrow> (nat \<Rightarrow> respawn_draw) \<Rightarrow> state \<Rightarrow> state" where
  "processRespawns nowt ds s =
     s\<lparr>nodes := map (\<lambda>(i, n). respawn_node nowt (ds i) n) (enumerate 0 (nodes s))\<rparr>"

section \<open>Reachable worlds\<close>

text \<open>\<open>Math.random()\<close> returns a number in \<open>[0, 1)\<close>.\<close>

definition unit_draw :: "real \<Rightarrow> bool" where
  "unit_draw r \<longleftrightarrow> 0 \<le> r \<and> r < 1"

text \<open>
  The worlds the server can be in: the seeded world, and whatever a message on any
  connection, a closed connection or a run of the respawn timer makes of a reachable world.
\<close>

inductive reachable :: "state \<Rightarrow> bool" where
  seeded:
    "(\<And>i. unit_draw (d_type (ds i)) \<and> unit_draw (d_x (ds i)) \<and> unit_draw (d_y (ds i))
           \<and> unit_draw (d_hp (ds i)) \<and> unit_draw (d_maxHp (ds i)))
     \<Longrightarrow> reachable (init_state ds)"
| message:
    "reachable s \<Longrightarrow> unit_draw (r_x rnd) \<Longrightarrow> unit_draw (r_y rnd)
     \<Longrightarrow> reachable (snd (on_message (pid, s) data t now rnd))"
| closed:
    "reachable s \<Longrightarrow> reachable (on_close (pid, s))"
| respawns:
    "reachable s \<Longrightarrow> (\<And>i. unit_draw (j_hp (ds i)) \<and> unit_draw (j_x (ds i)) \<and> unit_draw (j_y (ds i)))
     \<Longrightarrow> reachable (processRespawns nowt ds s)"

section \<open>Concrete worlds\<close>

text \<open>Small worlds on which the model is run.\<close>

definition mk_player :: "string \<Rightarrow> real \<Rightarrow> real \<Rightarrow> int \<Rightarrow> int \<Rightarrow> int \<Rightarrow> player" where
  "mk_player i x y h w st =
     \<lparr>p_id = i, p_name = i, p_x = x, p_y = y, p_hp = h, p_kills = 0,
      p_inv = \<lparr>wood = w, stone = st, food = 0\<rparr>, p_lastActive = 0\<rparr>"

definition mk_node :: "string \<Rightarrow> real \<Rightarrow> real \<Rightarrow> int \<Rightarrow> nat \<Rightarrow> node" where
  "mk_node ty x y h r =
     \<lparr>n_id = ''n0'', n_type = ty, n_x = x, n_y = y, n_hp = h, n_maxHp = 40, n_respawnAt = r\<rparr>"

definition mk_state :: "player list \<Rightarrow> node list \<Rightarrow> state" where
  "mk_state ps ns = \<lparr>players = ps, nodes = ns, buildings = [], nextPlayerId = 1 + length ps\<rparr>"

definition some_draws :: draws where
  "some_draws = \<lparr>r_x = 1 / 2, r_y = 1 / 4, r_suffix = ''k3f9''\<rparr>"

definition mid_seed :: "nat \<Rightarrow> seed_draw" where
  "mid_seed i = \<lparr>d_type = 1 / 2, d_x = 1 / 2, d_y = 1 / 2, d_hp = 1 / 2, d_maxHp = 1 / 2\<rparr>"

text \<open>
  The condition that every node keeps: it is live or waiting for its respawn, never both
  and never neither, and its \<open>maxHp\<close> is positive.
\<close>

definition node_ok :: "node \<Rightarrow> bool" where
  "node_ok n \<longleftrightarrow> ((0 < n_hp n) \<noteq> (n_respawnAt n \<noteq> 0)) \<and> 0 < n_maxHp n"

section \<open>Auxiliary facts\<close>

lemmas world_defs = mk_state_def mk_player_def mk_node_def some_draws_def store_def put_player_def
  get_player_def WORLD_W_def WORLD_H_def ACTION_RANGE_def

lemma get_put: "get_player i (put_player p ps) =
  map_option (\<lambda>q. if i = p_id p then p else q) (get_player i ps)"
  unfolding get_player_def put_player_def
  by (induction ps) auto

lemma get_player_mem: "v \<in> set ps \<Longrightarrow> \<exists>q. get_player (p_id v) ps = Some q"
  unfolding get_player_def by (induction ps) auto

lemma nlt_nhypot [simp]:
  "nlt (nhypot (nsub (Some u) (Some a)) (nsub (Some v) (Some b))) c = (hypot (u - a) (v - b) < c)"
  by (simp add: nlt_def nhypot_def nsub_def)

lemma ngt_nhypot [simp]:
  "ngt (nhypot (nsub (Some u) (Some a)) (nsub (Some v) (Some b))) c = (hypot (u - a) (v - b) > c)"
  by (simp add: ngt_def nhypot_def nsub_def)

lemma hypot_axis_x [simp]: "hypot u 0 = \<bar>u\<bar>"
  by (simp add: hypot_def)

lemma hypot_axis_y [simp]: "hypot 0 v = \<bar>v\<bar>"
  by (simp add: hypot_def)

lemma hypot_sqrt: "hypot u v = sqrt (u\<^sup>2 + v\<^sup>2)"
  by (simp add: hypot_def power2_eq_square)

lemma hypot_lt: "0 < c \<Longrightarrow> hypot u v < c \<longleftrightarrow> u * u + v * v < c * c"
  unfolding hypot_def
  by (metis abs_of_pos real_sqrt_abs2 real_sqrt_less_iff)

lemma hypot_gt: "0 \<le> c \<Longrightarrow> hypot u v > c \<longleftrightarrow> u * u + v * v > c * c"
  unfolding hypot_def
  by (metis abs_of_nonneg real_sqrt_abs2 real_sqrt_less_iff)

lemma hypot_pos: "(u, v) \<noteq> (0, 0) \<Longrightarrow> 0 < hypot u v"
  unfolding hypot_sqrt
  by (auto simp: sum_power2_gt_zero_iff)

text \<open>Normalising a non-zero vector and scaling it by \<open>c\<close> gives a vector of length \<open>\<bar>c\<bar>\<close>.\<close>

lemma hypot_normalised:
  assumes "(u, v) \<noteq> (0, 0)"
  shows "hypot (u / hypot u v * c) (v / hypot u v * c) = \<bar>c\<bar>"
proof -
  let ?m = "hypot u v"
  have m: "0 < ?m" using assms by (rule hypot_pos)
  have m2: "?m\<^sup>2 = u\<^sup>2 + v\<^sup>2"
    unfolding hypot_sqrt by simp
  have "(u / ?m * c)\<^sup>2 + (v / ?m * c)\<^sup>2 = (u\<^sup>2 + v\<^sup>2) / ?m\<^sup>2 * c\<^sup>2"
    by (simp add: power_mult_distrib power_divide add_divide_distrib distrib_right)
  also have "\<dots> = c\<^sup>2"
    using m m2 by (metis div_self less_numeral_extra(3) mult_1 zero_eq_power2)
  finally have "sqrt ((u / ?m * c)\<^sup>2 + (v / ?m * c)\<^sup>2) = sqrt (c\<^sup>2)"
    by (rule arg_cong)
  then show ?thesis
    unfolding hypot_sqrt [of "u / ?m * c" "v / ?m * c"] by (simp only: real_sqrt_abs)
qed

lemma direction_cases:
  "direction k = ((if k_left k then -1 else 0) + (if k_right k then 1 else 0),
                  (if k_up k then -1 else 0) + (if k_down k then 1 else 0))"
  by (simp add: direction_def Let_def)

lemma velocity_cancel:
  "k_up k = k_down k \<Longrightarrow> k_left k = k_right k \<Longrightarrow> velocity k = (0, 0)"
  by (simp add: velocity_def direction_cases)

lemma velocity_magnitude:
  assumes "k_up k \<noteq> k_down k \<or> k_left k \<noteq> k_right k"
  shows "hypot (fst (velocity k)) (snd (velocity k)) = PLAYER_SPEED"
proof -
  obtain u v where d: "direction k = (u, v)" by (cases "direction k")
  have nz: "(u, v) \<noteq> (0, 0)"
    using assms d by (auto simp: direction_cases split: if_splits)
  then have "hypot u v \<noteq> 0" using hypot_pos [of u v] by simp
  then have "velocity k = (u / hypot u v * PLAYER_SPEED, v / hypot u v * PLAYER_SPEED)"
    by (simp add: velocity_def d Let_def)
  then show ?thesis
    using hypot_normalised [OF nz, of PLAYER_SPEED] by (simp add: PLAYER_SPEED_def)
qed

lemma find_target_props:
  "find_target me mx my ps = Some v \<Longrightarrow>
     v \<in> set ps \<and> p_id v \<noteq> me \<and> nlt (nhypot (nsub (Some (p_x v)) mx) (nsub (Some (p_y v)) my)) 40"
  by (induction ps) (auto split: if_splits)

lemma enough_cost: "enough p (cost kind) \<longleftrightarrow>
  (if kind = Some ''wall'' then 5 \<le> wood (p_inv p) else 10 \<le> wood (p_inv p) \<and> 5 \<le> stone (p_inv p))"
  by (simp add: enough_def cost_def inv_get_def)

lemma debit_cost: "foldl inv_sub iv (cost kind) =
  (if kind = Some ''wall'' then iv\<lparr>wood := wood iv - 5\<rparr>
   else iv\<lparr>wood := wood iv - 10, stone := stone iv - 5\<rparr>)"
  by (simp add: cost_def inv_sub_def)

lemma find_target_iff:
  "find_target me (Some a) (Some b) ps \<noteq> None \<longleftrightarrow>
     (\<exists>q\<in>set ps. p_id q \<noteq> me \<and> hypot (p_x q - a) (p_y q - b) < 40)"
  by (induction ps) auto

lemma harvest_none: "\<forall>n\<in>set ns. \<not> qualifies p mx my n \<Longrightarrow> harvest p mx my now ns = (p, ns)"
  by (induction ns) auto

lemma hit_changes:
  assumes "h \<noteq> n_hp n"
  shows "n\<lparr>n_hp := h\<rparr> \<noteq> n" and "n\<lparr>n_respawnAt := r, n_hp := h\<rparr> \<noteq> n"
proof -
  show "n\<lparr>n_hp := h\<rparr> \<noteq> n"
  proof
    assume e: "n\<lparr>n_hp := h\<rparr> = n"
    from arg_cong [OF e, of n_hp] assms show False by simp
  qed
  show "n\<lparr>n_respawnAt := r, n_hp := h\<rparr> \<noteq> n"
  proof
    assume e: "n\<lparr>n_respawnAt := r, n_hp := h\<rparr> = n"
    from arg_cong [OF e, of n_hp] assms show False by simp
  qed
qed

lemma harvest_some: "\<exists>n\<in>set ns. qualifies p mx my n \<Longrightarrow> snd (harvest p mx my now ns) \<noteq> ns"
proof (induction ns)
  case Nil
  then show ?case by simp
next
  case (Cons n ns)
  show ?case
  proof (cases "qualifies p mx my n")
    case True
    then have "0 < n_hp n" by (simp add: qualifies_def)
    then show ?thesis using True hit_changes [of "n_hp n - 15" n] hit_changes [of 0 n]
      by (simp add: Let_def)
  next
    case False
    with Cons show ?thesis by (simp add: split_beta)
  qed
qed

lemma harvest_iff:
  "harvest p mx my now ns \<noteq> (p, ns) \<longleftrightarrow> (\<exists>n\<in>set ns. qualifies p mx my n)"
  using harvest_none [of ns p mx my now] harvest_some [of ns p mx my now]
  by (metis snd_conv)

lemma appended_changes: "s'\<lparr>buildings := buildings s @ [b]\<rparr> \<noteq> s"
proof
  assume e: "s'\<lparr>buildings := buildings s @ [b]\<rparr> = s"
  from arg_cong [OF e, of buildings] show False by simp
qed

lemma get_player_id: "get_player i ps = Some p \<Longrightarrow> p_id p = i"
  unfolding get_player_def by (induction ps) (auto split: if_splits)

lemma find_target_put:
  "p_id p' = me \<Longrightarrow> find_target me mx my (put_player p' ps) = find_target me mx my ps"
  unfolding put_player_def by (induction ps) auto

lemma put_put: "put_player p (put_player p ps) = put_player p ps"
  unfolding put_player_def by (induction ps) auto

lemma qualifies_active [simp]: "qualifies (p\<lparr>p_lastActive := t\<rparr>) mx my n = qualifies p mx my n"
  by (simp add: qualifies_def)

lemma enough_active [simp]: "enough (p\<lparr>p_lastActive := t\<rparr>) c = enough p c"
  by (simp add: enough_def)

lemma bound_step:
  assumes "get_player i (players s) = Some p" "\<forall>nm. m \<noteq> Join nm"
  shows "on_message (Some i, s) (Parsed m) t now rnd =
    (Some i, case handleClientMessage (store s (p\<lparr>p_lastActive := t\<rparr>)) (p\<lparr>p_lastActive := t\<rparr>) m now rnd of
               Inl e \<Rightarrow> store s (p\<lparr>p_lastActive := t\<rparr>) | Inr s2 \<Rightarrow> s2)"
  using assms by (cases m) (simp_all add: on_message_def Let_def split: sum.splits)

lemma harvest_pairs:
  "harvest p mx my now ns = (p', ns') \<Longrightarrow>
     list_all2 (\<lambda>n n'. (n_hp n \<le> 0 \<longrightarrow> n' = n)
        \<and> (0 < n_hp n \<and> n_hp n' \<le> 0 \<longrightarrow>
            n_hp n \<le> 15 \<and> n_hp n' = 0 \<and> n_respawnAt n' = now + 30000
            \<and> p' = grant p (n_type n))) ns ns'
     \<and> (list_all2 (\<lambda>n n'. 0 < n_hp n \<longrightarrow> 0 < n_hp n') ns ns' \<longrightarrow> p' = p)"
proof (induction ns arbitrary: p' ns')
  case Nil
  then show ?case by simp
next
  case (Cons n ns)
  show ?case
  proof (cases "qualifies p mx my n")
    case True
    then have "0 < n_hp n" by (simp add: qualifies_def)
    with True Cons.prems show ?thesis
      by (auto simp: Let_def list_all2_same split: if_splits)
  next
    case False
    obtain q ms where h: "harvest p mx my now ns = (q, ms)" by (cases "harvest p mx my now ns")
    with False Cons.prems have e: "p' = q" "ns' = n # ms" by auto
    from Cons.IH [OF h] show ?thesis unfolding e by auto
  qed
qed

lemma handle_nodes:
  "handleClientMessage s p m now rnd = Inr s' \<Longrightarrow>
     nodes s' = nodes s \<or> (\<exists>mx my. nodes s' = snd (harvest p mx my now (nodes s)))"
proof (cases m)
  case (Click mx my)
  assume h: "handleClientMessage s p m now rnd = Inr s'"
  show ?thesis
  proof (cases "find_target (p_id p) mx my (players s)")
    case None
    with h Click have "nodes s' = snd (harvest p mx my now (nodes s))"
      by (auto simp: handleClientMessage_def click_def store_def split: prod.splits)
    then show ?thesis by blast
  next
    case (Some v)
    with h Click show ?thesis
      by (auto simp: handleClientMessage_def click_def attack_def store_def Let_def)
  qed
qed (auto simp: handleClientMessage_def place_def tapMove_def store_def
      Let_def split: option.splits if_splits)

lemma on_message_nodes:
  "nodes (snd (on_message (pid, s) data t now rnd)) = nodes s
   \<or> (\<exists>p mx my. nodes (snd (on_message (pid, s) data t now rnd)) = snd (harvest p mx my now (nodes s)))"
proof (cases data)
  case (Parsed m)
  show ?thesis
  proof (cases "\<exists>nm. m = Join nm")
    case True
    then show ?thesis using Parsed
      by (auto simp: on_message_def createPlayer_def Let_def)
  next
    case nj: False
    show ?thesis
    proof (cases pid)
      case None
      then show ?thesis using Parsed nj by (cases m) (auto simp: on_message_def)
    next
      case (Some i)
      show ?thesis
      proof (cases "get_player i (players s)")
        case None
        then show ?thesis using Parsed nj Some by (cases m) (auto simp: on_message_def)
      next
        case (Some p)
        let ?p = "p\<lparr>p_lastActive := t\<rparr>"
        have st: "on_message (pid, s) data t now rnd =
          (Some i, case handleClientMessage (store s ?p) ?p m now rnd of
               Inl e \<Rightarrow> store s ?p | Inr s2 \<Rightarrow> s2)"
          using Some \<open>pid = Some i\<close> Parsed nj
          by (cases m) (simp_all add: on_message_def Let_def split: sum.splits)
        show ?thesis
        proof (cases "handleClientMessage (store s ?p) ?p m now rnd")
          case (Inl e)
          then show ?thesis using st by (simp add: store_def)
        next
          case (Inr s2)
          from handle_nodes [OF Inr] show ?thesis using st Inr by (auto simp: store_def)
        qed
      qed
    qed
  qed
qed (simp_all add: on_message_def)

lemma respawn_nth:
  "i < length (nodes s) \<Longrightarrow>
     nodes (processRespawns nowt ds s) ! i = respawn_node nowt (ds i) (nodes s ! i)"
  by (simp add: processRespawns_def nth_enumerate_eq)

lemma grant_table:
  "p_inv (grant p ''rock'') = (p_inv p)\<lparr>stone := stone (p_inv p) + 3\<rparr>"
  "p_inv (grant p ''tree'') = (p_inv p)\<lparr>wood := wood (p_inv p) + 5\<rparr>"
  "p_inv (grant p ''berry'') = (p_inv p)\<lparr>food := food (p_inv p) + 4\<rparr>"
  "p_inv (grant p ''wood'') = (p_inv p)\<lparr>wood := wood (p_inv p) + 8\<rparr>"
  by (simp_all add: grant_def)

lemma harvest_depleted_same:
  "i < length ns \<Longrightarrow> n_hp (ns ! i) \<le> 0 \<Longrightarrow>
     i < length (snd (harvest p mx my now ns)) \<and> snd (harvest p mx my now ns) ! i = ns ! i"
  using harvest_pairs [of p mx my now ns "fst (harvest p mx my now ns)" "snd (harvest p mx my now ns)"]
  by (auto simp: list_all2_conv_all_nth)

lemma seed_node_ok:
  assumes "unit_draw (d_hp d)" "unit_draw (d_maxHp d)"
  shows "node_ok (seed_node d i)"
proof -
  have "0 \<le> \<lfloor>d_hp d * 50\<rfloor>" "0 \<le> \<lfloor>d_maxHp d * 50\<rfloor>"
    using assms by (simp_all add: unit_draw_def)
  then show ?thesis by (simp add: node_ok_def seed_node_def add_pos_nonneg del: zero_le_floor)
qed

lemma harvest_ok:
  "\<forall>n\<in>set ns. node_ok n \<Longrightarrow> \<forall>n\<in>set (snd (harvest p mx my now ns)). node_ok n"
proof (induction ns)
  case Nil
  then show ?case by simp
next
  case (Cons n ns)
  show ?case
  proof (cases "qualifies p mx my n")
    case True
    then have "0 < n_hp n" by (simp add: qualifies_def)
    with True Cons.prems show ?thesis
      by (auto simp: Let_def node_ok_def)
  next
    case False
    with Cons show ?thesis by (simp add: split_beta)
  qed
qed

lemma respawn_node_ok: "node_ok n \<Longrightarrow> node_ok (respawn_node nowt d n)"
  by (auto simp: node_ok_def respawn_node_def)

lemma respawns_ok:
  assumes "\<forall>n\<in>set (nodes s). node_ok n"
  shows "\<forall>n\<in>set (nodes (processRespawns nowt ds s)). node_ok n"
proof
  fix n assume "n \<in> set (nodes (processRespawns nowt ds s))"
  then obtain i where i: "i < length (nodes s)" and n: "n = nodes (processRespawns nowt ds s) ! i"
    by (auto simp: in_set_conv_nth processRespawns_def)
  from i assms have "node_ok (nodes s ! i)" by simp
  then show "node_ok n" unfolding n respawn_nth [OF i] by (rule respawn_node_ok)
qed

lemma reachable_nodes_ok: "reachable s \<Longrightarrow> \<forall>n\<in>set (nodes s). node_ok n"
proof (induction rule: reachable.induct)
  case (seeded ds)
  then show ?case
    by (auto simp: init_state_def seedNodes_def empty_state_def intro: seed_node_ok)
next
  case (message s rnd pid data t now)
  from on_message_nodes [of pid s data t now rnd]
  show ?case
  proof
    assume "nodes (snd (on_message (pid, s) data t now rnd)) = nodes s"
    with message.IH show ?thesis by simp
  next
    assume "\<exists>p mx my. nodes (snd (on_message (pid, s) data t now rnd)) = snd (harvest p mx my now (nodes s))"
    then obtain p mx my where
      "nodes (snd (on_message (pid, s) data t now rnd)) = snd (harvest p mx my now (nodes s))"
      by blast
    with harvest_ok [OF message.IH, of p mx my now] show ?thesis by simp
  qed
next
  case (closed s pid)
  then show ?case by (cases pid) (simp_all add: on_close_def)
next
  case (respawns s ds nowt)
  then show ?case by (intro respawns_ok)
qed

lemma mid_seed_unit:
  "unit_draw (d_type (mid_seed i)) \<and> unit_draw (d_x (mid_seed i)) \<and> unit_draw (d_y (mid_seed i))
   \<and> unit_draw (d_hp (mid_seed i)) \<and> unit_draw (d_maxHp (mid_seed i))"
  by (simp add: mid_seed_def unit_draw_def)

lemma harvest_first:
  "\<forall>m\<in>set pre. \<not> qualifies p mx my m \<Longrightarrow> qualifies p mx my n \<Longrightarrow>
     harvest p mx my now (pre @ n # post) =
       (if n_hp n \<le> 15
        then (grant p (n_type n), pre @ n\<lparr>n_respawnAt := now + 30000, n_hp := 0\<rparr> # post)
        else (p, pre @ n\<lparr>n_hp := n_hp n - 15\<rparr> # post))"
  by (induction pre) (auto simp: Let_def)

lemma grant_id [simp]: "p_id (grant p ty) = p_id p"
  by (simp add: grant_def Let_def)

lemma put_put_same_id: "p_id a = p_id b \<Longrightarrow> put_player b (put_player a ps) = put_player b ps"
  unfolding put_player_def by (induction ps) auto

lemma click_harvests:
  assumes f: "find_target (p_id p) mx my (players s) = None"
    and n: "nodes s = pre @ n # post"
    and pre: "\<forall>m\<in>set pre. \<not> qualifies p mx my m"
    and q: "qualifies p mx my n"
  shows "handleClientMessage s p (Click mx my) now rnd =
     Inr (if n_hp n \<le> 15
          then (store s (grant p (n_type n)))
                 \<lparr>nodes := pre @ n\<lparr>n_respawnAt := now + 30000, n_hp := 0\<rparr> # post\<rparr>
          else (store s p)\<lparr>nodes := pre @ n\<lparr>n_hp := n_hp n - 15\<rparr> # post\<rparr>)"
  using f harvest_first [OF pre q, of now post]
  by (simp add: handleClientMessage_def click_def n)

lemma message_click_harvests:
  assumes g: "get_player i (players s) = Some p"
    and f: "find_target i mx my (players s) = None"
    and n: "nodes s = pre @ n # post"
    and pre: "\<forall>m\<in>set pre. \<not> qualifies p mx my m"
    and q: "qualifies p mx my n"
  shows "on_message (Some i, s) (Parsed (Click mx my)) t now rnd =
     (Some i,
      if n_hp n \<le> 15
      then (store s (grant (p\<lparr>p_lastActive := t\<rparr>) (n_type n)))
             \<lparr>nodes := pre @ n\<lparr>n_respawnAt := now + 30000, n_hp := 0\<rparr> # post\<rparr>
      else (store s (p\<lparr>p_lastActive := t\<rparr>))\<lparr>nodes := pre @ n\<lparr>n_hp := n_hp n - 15\<rparr> # post\<rparr>)"
proof -
  let ?p = "p\<lparr>p_lastActive := t\<rparr>"
  have id: "p_id p = i" using g by (rule get_player_id)
  have f': "find_target (p_id ?p) mx my (players (store s ?p)) = None"
    using f id by (simp add: store_def find_target_put)
  have n': "nodes (store s ?p) = pre @ n # post" using n by (simp add: store_def)
  have pre': "\<forall>m\<in>set pre. \<not> qualifies ?p mx my m" using pre by simp
  have q': "qualifies ?p mx my n" using q by simp
  show ?thesis
    using g click_harvests [OF f' n' pre' q', of now rnd]
    by (simp add: bound_step store_def put_put_same_id put_put)
qed

section \<open>Kills\<close>

text \<open>
  C1 (as the code has it). A click by player \<open>p\<close> whose target \<open>v\<close>, the first other player
  within the hit radius, is left with health \<open>\<le> 0\<close> by the 20 damage: the attacker's
  kill count grows by exactly 1 and its wood by \<open>floor (min 5 w / 2)\<close>, where \<open>w\<close> is the
  victim's wood; the victim's health is 100 again, its new position is in bounds, and its
  wood is debited by the whole dropped amount \<open>min 5 w\<close> (not by the half that the attacker
  receives) and floored at zero.
\<close>

theorem kill_effect:
  assumes me: "get_player (p_id p) (players s) = Some p"
    and tgt: "find_target (p_id p) mx my (players s) = Some v"
    and dead: "p_hp v - 20 \<le> 0"
    and rx: "0 \<le> r_x rnd" "r_x rnd < 1" and ry: "0 \<le> r_y rnd" "r_y rnd < 1"
  shows "\<exists>s' a v'. handleClientMessage s p (Click mx my) now rnd = Inr s'
      \<and> get_player (p_id p) (players s') = Some a
      \<and> get_player (p_id v) (players s') = Some v'
      \<and> p_kills a = p_kills p + 1
      \<and> wood (p_inv a) = wood (p_inv p) + min 5 (wood (p_inv v)) div 2
      \<and> p_hp v' = 100
      \<and> 0 \<le> p_x v' \<and> p_x v' \<le> WORLD_W \<and> 0 \<le> p_y v' \<and> p_y v' \<le> WORLD_H
      \<and> wood (p_inv v') = max 0 (wood (p_inv v) - min 5 (wood (p_inv v)))
      \<and> 0 \<le> wood (p_inv v')"
proof -
  from find_target_props [OF tgt] have vin: "v \<in> set (players s)" and ne: "p_id v \<noteq> p_id p"
    by auto
  from get_player_mem [OF vin] obtain q where q: "get_player (p_id v) (players s) = Some q"
    by blast
  show ?thesis
    using me tgt dead rx ry ne q
    by (simp add: handleClientMessage_def click_def attack_def store_def get_put Let_def
        WORLD_W_def WORLD_H_def)
qed

text \<open>
  A kill of a victim that holds 5 wood: the attacker receives 2 and the victim is left
  with 0, not with \<open>5 - 2\<close>.
\<close>

theorem kill_effect_counterexample:
  "handleClientMessage
      (mk_state [mk_player ''p1'' 0 0 100 0 0, mk_player ''p2'' 10 0 20 5 0] [])
      (mk_player ''p1'' 0 0 100 0 0) (Click (Some 10) (Some 0)) 0 some_draws
    = Inr (mk_state [(mk_player ''p1'' 0 0 100 2 0)\<lparr>p_kills := 1\<rparr>,
                     mk_player ''p2'' 1500 500 100 0 0] [])
   \<and> (0::int) \<noteq> 5 - min 5 5 div 2"
  by (simp add: handleClientMessage_def click_def attack_def world_defs)

theorem kill_effect_witness:
  "\<exists>s' a v'. handleClientMessage
      (mk_state [mk_player ''p1'' 0 0 100 0 0, mk_player ''p2'' 10 0 20 5 0] [])
      (mk_player ''p1'' 0 0 100 0 0) (Click (Some 10) (Some 0)) 0 some_draws = Inr s'
    \<and> get_player ''p1'' (players s') = Some a
    \<and> get_player ''p2'' (players s') = Some v'
    \<and> p_kills a = 1 \<and> wood (p_inv a) = 2 \<and> p_hp v' = 100
    \<and> 0 \<le> p_x v' \<and> p_x v' \<le> 3000 \<and> 0 \<le> p_y v' \<and> p_y v' \<le> 2000
    \<and> wood (p_inv v') = 0 \<and> 0 \<le> wood (p_inv v')"
  using kill_effect [of "mk_player ''p1'' 0 0 100 0 0"
      "mk_state [mk_player ''p1'' 0 0 100 0 0, mk_player ''p2'' 10 0 20 5 0] []"
      "Some 10" "Some 0" "mk_player ''p2'' 10 0 20 5 0" some_draws 0]
  by (simp add: world_defs)

section \<open>Movement\<close>

text \<open>
  C9 (as the code has it). For a move intent whose flags do not cancel (up differs from
  down, or left differs from right) the velocity has magnitude exactly 220; when the flags
  cancel on both axes the velocity is zero, whatever flags are set. The new position is
  \<open>clamp (old + velocity * secs)\<close> on each axis, where \<open>secs\<close> is the elapsed time of the
  message in seconds, 100 ms when the field is absent or zero.
\<close>

theorem move_velocity:
  "(k_up k \<noteq> k_down k \<or> k_left k \<noteq> k_right k
      \<longrightarrow> hypot (fst (velocity k)) (snd (velocity k)) = 220)
   \<and> (k_up k = k_down k \<and> k_left k = k_right k \<longrightarrow> velocity k = (0, 0))
   \<and> handleClientMessage s p (Input (Some k) dt) now rnd =
       Inr (store s (p\<lparr>p_x := clamp (p_x p + fst (velocity k) * secs_of dt) 0 3000,
                        p_y := clamp (p_y p + snd (velocity k) * secs_of dt) 0 2000\<rparr>))
   \<and> secs_of dt = (case dt of None \<Rightarrow> 100 | Some d \<Rightarrow> if d = 0 then 100 else d) / 1000"
  using velocity_magnitude [of k] velocity_cancel [of k]
  by (auto simp: handleClientMessage_def move_def secs_of_def PLAYER_SPEED_def WORLD_W_def
      WORLD_H_def Let_def split: prod.splits)

text \<open>Up and down pressed together: a flag is set, the velocity is zero and nothing moves.\<close>

theorem move_velocity_counterexample:
  "hypot (fst (velocity \<lparr>k_up = True, k_down = True, k_left = False, k_right = False\<rparr>))
         (snd (velocity \<lparr>k_up = True, k_down = True, k_left = False, k_right = False\<rparr>)) \<noteq> 220
   \<and> handleClientMessage (mk_state [mk_player ''p1'' 100 100 100 0 0] [])
        (mk_player ''p1'' 100 100 100 0 0)
        (Input (Some \<lparr>k_up = True, k_down = True, k_left = False, k_right = False\<rparr>) (Some 100))
        0 some_draws
      = Inr (mk_state [mk_player ''p1'' 100 100 100 0 0] [])"
  by (simp add: velocity_cancel handleClientMessage_def move_def mk_state_def mk_player_def
      store_def put_player_def clamp_def WORLD_W_def WORLD_H_def)

theorem move_velocity_witness:
  "hypot (fst (velocity \<lparr>k_up = True, k_down = False, k_left = True, k_right = False\<rparr>))
         (snd (velocity \<lparr>k_up = True, k_down = False, k_left = True, k_right = False\<rparr>)) = 220
   \<and> velocity \<lparr>k_up = True, k_down = True, k_left = True, k_right = True\<rparr> = (0, 0)"
  using move_velocity [of "\<lparr>k_up = True, k_down = False, k_left = True, k_right = False\<rparr>"]
    move_velocity [of "\<lparr>k_up = True, k_down = True, k_left = True, k_right = True\<rparr>"]
  by simp

section \<open>Building\<close>

text \<open>
  C10. A place intent whose kind is anything but the string \<open>wall\<close> (another string, or
  no kind at all) is not rejected for its kind: it is charged the camp cost of 10 wood and
  5 stone, and when the actor can pay and the range check passes, a structure of kind
  \<open>camp\<close> is appended.
\<close>

theorem place_non_wall_is_camp:
  assumes "kind \<noteq> Some ''wall''"
  shows "handleClientMessage s p (Place kind x y) now rnd = Inr
     (if 10 \<le> wood (p_inv p) \<and> 5 \<le> stone (p_inv p)
         \<and> \<not> ngt (nhypot (nsub (Some (p_x p)) x) (nsub (Some (p_y p)) y)) 80
      then (store s (p\<lparr>p_inv := (p_inv p)\<lparr>wood := wood (p_inv p) - 10,
                                          stone := stone (p_inv p) - 5\<rparr>\<rparr>))
             \<lparr>buildings := buildings s @
                [\<lparr>b_id = mk_building_id now (r_suffix rnd), b_kind = ''camp'',
                  b_x = x, b_y = y, b_owner = p_id p\<rparr>]\<rparr>
      else s)"
  using assms
  by (simp add: handleClientMessage_def place_def enough_cost debit_cost ACTION_RANGE_def Let_def)

theorem place_non_wall_is_camp_witness:
  "handleClientMessage (mk_state [mk_player ''p1'' 0 0 100 12 5] [])
      (mk_player ''p1'' 0 0 100 12 5) (Place (Some ''tower'') (Some 30) (Some 40)) 7 some_draws
    = Inr ((mk_state [mk_player ''p1'' 0 0 100 2 0] [])
             \<lparr>buildings := [\<lparr>b_id = ''b7k3f9'', b_kind = ''camp'',
                              b_x = Some 30, b_y = Some 40, b_owner = ''p1''\<rparr>]\<rparr>)
   \<and> handleClientMessage (mk_state [mk_player ''p1'' 0 0 100 9 5] [])
      (mk_player ''p1'' 0 0 100 9 5) (Place None (Some 30) (Some 40)) 7 some_draws
    = Inr (mk_state [mk_player ''p1'' 0 0 100 9 5] [])"
  using place_non_wall_is_camp [of "Some ''tower''" "mk_state [mk_player ''p1'' 0 0 100 12 5] []"
      "mk_player ''p1'' 0 0 100 12 5" "Some 30" "Some 40" 7 some_draws]
    place_non_wall_is_camp [of None "mk_state [mk_player ''p1'' 0 0 100 9 5] []"
      "mk_player ''p1'' 0 0 100 9 5" "Some 30" "Some 40" 7 some_draws]
  by (simp add: world_defs hypot_gt mk_building_id_def dec.simps)

text \<open>
  C6 (as the code has it). A place intent is rejected, with the whole world unchanged, when
  the actor cannot pay a resource of the cost table (wall: 5 wood; camp: 10 wood and
  5 stone) or when the actor's distance to the target is greater than 80. Otherwise
  exactly the listed costs are debited and exactly one structure is appended, owned by the
  actor; its id is \<open>b\<close> followed by the clock in milliseconds and a random suffix, and
  nothing checks that id against the structures that exist.
\<close>

theorem place_atomic:
  "(\<not> enough p (cost kind) \<or> ngt (nhypot (nsub (Some (p_x p)) x) (nsub (Some (p_y p)) y)) 80
      \<longrightarrow> handleClientMessage s p (Place kind x y) now rnd = Inr s)
   \<and> (enough p (cost kind) \<and> \<not> ngt (nhypot (nsub (Some (p_x p)) x) (nsub (Some (p_y p)) y)) 80
      \<longrightarrow> handleClientMessage s p (Place kind x y) now rnd =
          Inr ((store s (p\<lparr>p_inv :=
                  (if kind = Some ''wall'' then (p_inv p)\<lparr>wood := wood (p_inv p) - 5\<rparr>
                   else (p_inv p)\<lparr>wood := wood (p_inv p) - 10, stone := stone (p_inv p) - 5\<rparr>)\<rparr>))
               \<lparr>buildings := buildings s @
                  [\<lparr>b_id = ''b'' @ dec now @ r_suffix rnd,
                    b_kind = (if kind = Some ''wall'' then ''wall'' else ''camp''),
                    b_x = x, b_y = y, b_owner = p_id p\<rparr>]\<rparr>))
   \<and> (enough p (cost kind) \<longleftrightarrow>
        (if kind = Some ''wall'' then 5 \<le> wood (p_inv p)
         else 10 \<le> wood (p_inv p) \<and> 5 \<le> stone (p_inv p)))"
  by (simp add: handleClientMessage_def place_def debit_cost ACTION_RANGE_def Let_def
      mk_building_id_def enough_cost)

text \<open>
  Two walls placed in the same millisecond with the same random suffix carry the same id.
\<close>

theorem place_atomic_counterexample:
  "handleClientMessage (mk_state [mk_player ''p1'' 0 0 100 10 0] [])
      (mk_player ''p1'' 0 0 100 10 0) (Place (Some ''wall'') (Some 10) (Some 0)) 7 some_draws
    = Inr ((mk_state [mk_player ''p1'' 0 0 100 5 0] [])
             \<lparr>buildings := [\<lparr>b_id = ''b7k3f9'', b_kind = ''wall'',
                              b_x = Some 10, b_y = Some 0, b_owner = ''p1''\<rparr>]\<rparr>)
   \<and> handleClientMessage ((mk_state [mk_player ''p1'' 0 0 100 5 0] [])
             \<lparr>buildings := [\<lparr>b_id = ''b7k3f9'', b_kind = ''wall'',
                              b_x = Some 10, b_y = Some 0, b_owner = ''p1''\<rparr>]\<rparr>)
      (mk_player ''p1'' 0 0 100 5 0) (Place (Some ''wall'') (Some 20) (Some 0)) 7 some_draws
    = Inr ((mk_state [mk_player ''p1'' 0 0 100 0 0] [])
             \<lparr>buildings := [\<lparr>b_id = ''b7k3f9'', b_kind = ''wall'',
                              b_x = Some 10, b_y = Some 0, b_owner = ''p1''\<rparr>,
                             \<lparr>b_id = ''b7k3f9'', b_kind = ''wall'',
                              b_x = Some 20, b_y = Some 0, b_owner = ''p1''\<rparr>]\<rparr>)"
  by (simp add: handleClientMessage_def place_def enough_cost debit_cost world_defs
      mk_building_id_def dec.simps)

theorem place_atomic_witness:
  "handleClientMessage (mk_state [mk_player ''p1'' 0 0 100 4 0] [])
      (mk_player ''p1'' 0 0 100 4 0) (Place (Some ''wall'') (Some 10) (Some 0)) 7 some_draws
    = Inr (mk_state [mk_player ''p1'' 0 0 100 4 0] [])
   \<and> handleClientMessage (mk_state [mk_player ''p1'' 0 0 100 12 7] [])
      (mk_player ''p1'' 0 0 100 12 7) (Place (Some ''camp'') (Some 10) (Some 0)) 7 some_draws
    = Inr ((mk_state [mk_player ''p1'' 0 0 100 2 2] [])
             \<lparr>buildings := [\<lparr>b_id = ''b7k3f9'', b_kind = ''camp'',
                              b_x = Some 10, b_y = Some 0, b_owner = ''p1''\<rparr>]\<rparr>)"
  using place_atomic [of "mk_player ''p1'' 0 0 100 4 0" "Some ''wall''" "Some 10" "Some 0"
      "mk_state [mk_player ''p1'' 0 0 100 4 0] []" 7 some_draws]
    place_atomic [of "mk_player ''p1'' 0 0 100 12 7" "Some ''camp''" "Some 10" "Some 0"
      "mk_state [mk_player ''p1'' 0 0 100 12 7] []" 7 some_draws]
  by (simp add: world_defs dec.simps)

section \<open>Range checks\<close>

text \<open>
  C4 (as the code has it). With numeric coordinates, each range check compares the
  Euclidean distance with its limit. A click finds a player to attack exactly when some
  other player is at distance strictly less than 40 from the click; it hits a node exactly
  when some live node is at distance strictly less than 50 from the click and strictly
  less than 80 from the actor. The build check is not strict: a place intent that the
  actor can pay for changes the world exactly when the actor's distance to the target is
  at most 80, so a build at distance exactly 80 is accepted.
\<close>

theorem range_checks:
  "(find_target me (Some a) (Some b) ps \<noteq> None \<longleftrightarrow>
      (\<exists>q\<in>set ps. p_id q \<noteq> me \<and> sqrt ((p_x q - a)\<^sup>2 + (p_y q - b)\<^sup>2) < 40))
   \<and> (harvest p (Some a) (Some b) now ns \<noteq> (p, ns) \<longleftrightarrow>
      (\<exists>n\<in>set ns. 0 < n_hp n \<and> sqrt ((n_x n - a)\<^sup>2 + (n_y n - b)\<^sup>2) < 50
                   \<and> sqrt ((p_x p - n_x n)\<^sup>2 + (p_y p - n_y n)\<^sup>2) < 80))
   \<and> (handleClientMessage s p (Place kind (Some x) (Some y)) t rnd \<noteq> Inr s \<longleftrightarrow>
      enough p (cost kind) \<and> sqrt ((p_x p - x)\<^sup>2 + (p_y p - y)\<^sup>2) \<le> 80)"
proof -
  have 1: "find_target me (Some a) (Some b) ps \<noteq> None \<longleftrightarrow>
      (\<exists>q\<in>set ps. p_id q \<noteq> me \<and> sqrt ((p_x q - a)\<^sup>2 + (p_y q - b)\<^sup>2) < 40)"
    unfolding find_target_iff hypot_sqrt ..
  have 2: "harvest p (Some a) (Some b) now ns \<noteq> (p, ns) \<longleftrightarrow>
      (\<exists>n\<in>set ns. 0 < n_hp n \<and> sqrt ((n_x n - a)\<^sup>2 + (n_y n - b)\<^sup>2) < 50
                   \<and> sqrt ((p_x p - n_x n)\<^sup>2 + (p_y p - n_y n)\<^sup>2) < 80)"
    unfolding harvest_iff by (simp add: qualifies_def hypot_sqrt ACTION_RANGE_def)
  have 3: "handleClientMessage s p (Place kind (Some x) (Some y)) t rnd \<noteq> Inr s \<longleftrightarrow>
      enough p (cost kind) \<and> sqrt ((p_x p - x)\<^sup>2 + (p_y p - y)\<^sup>2) \<le> 80"
    by (simp add: handleClientMessage_def place_def Let_def appended_changes ACTION_RANGE_def
        hypot_sqrt not_less)
  from 1 2 3 show ?thesis by blast
qed

text \<open>A wall placed at distance exactly 80 from the actor is built.\<close>

theorem range_checks_counterexample:
  "handleClientMessage (mk_state [mk_player ''p1'' 0 0 100 5 0] [])
      (mk_player ''p1'' 0 0 100 5 0) (Place (Some ''wall'') (Some 80) (Some 0)) 7 some_draws
    = Inr ((mk_state [mk_player ''p1'' 0 0 100 0 0] [])
             \<lparr>buildings := [\<lparr>b_id = ''b7k3f9'', b_kind = ''wall'',
                              b_x = Some 80, b_y = Some 0, b_owner = ''p1''\<rparr>]\<rparr>)
   \<and> sqrt ((0 - 80)\<^sup>2 + (0 - 0)\<^sup>2) = (80::real)"
  by (simp add: handleClientMessage_def place_def enough_cost debit_cost world_defs
      mk_building_id_def dec.simps)

theorem range_checks_witness:
  "find_target ''p1'' (Some 0) (Some 0) [mk_player ''p2'' 40 0 100 0 0] = None
   \<and> find_target ''p1'' (Some 0) (Some 0) [mk_player ''p2'' 39 0 100 0 0] \<noteq> None
   \<and> harvest (mk_player ''p1'' 0 0 100 0 0) (Some 0) (Some 0) 0 [mk_node ''tree'' 50 0 30 0]
       = (mk_player ''p1'' 0 0 100 0 0, [mk_node ''tree'' 50 0 30 0])
   \<and> handleClientMessage (mk_state [mk_player ''p1'' 0 0 100 5 0] [])
        (mk_player ''p1'' 0 0 100 5 0) (Place (Some ''wall'') (Some 80) (Some 0)) 7 some_draws
      \<noteq> Inr (mk_state [mk_player ''p1'' 0 0 100 5 0] [])"
  using range_checks [where me = "''p1''" and a = 0 and b = 0
      and ps = "[mk_player ''p2'' 40 0 100 0 0]"
      and p = "mk_player ''p1'' 0 0 100 5 0" and now = 0 and ns = "[mk_node ''tree'' 50 0 30 0]"
      and s = "mk_state [mk_player ''p1'' 0 0 100 5 0] []" and kind = "Some ''wall''"
      and x = 80 and y = 0 and t = 7 and rnd = some_draws]
    range_checks [where me = "''p1''" and a = 0 and b = 0
      and ps = "[mk_player ''p2'' 39 0 100 0 0]"
      and p = "mk_player ''p1'' 0 0 100 0 0" and now = 0 and ns = "[mk_node ''tree'' 50 0 30 0]"]
  by (simp add: mk_player_def mk_node_def enough_cost)

section \<open>Where the code departs from its own words\<close>

text \<open>The input branch keeps every position inside the world.\<close>

lemma input_keeps_bounds:
  "0 \<le> p_x (move p k dt) \<and> p_x (move p k dt) \<le> WORLD_W
   \<and> 0 \<le> p_y (move p k dt) \<and> p_y (move p k dt) \<le> WORLD_H"
  by (simp add: move_def clamp_def WORLD_W_def WORLD_H_def Let_def split: prod.splits)

text \<open>
  C2. The position invariant \<open>0 \<le> x \<le> W\<close>, \<open>0 \<le> y \<le> H\<close> is kept by the input branch,
  which clamps, but not by the tap-move branch, which adds the capped step without
  clamping: a player standing on the left edge who taps 40 units to the left of the world
  ends at \<open>x = -40\<close>.
\<close>

theorem tapMove_leaves_world:
  "handleClientMessage (mk_state [mk_player ''p1'' 0 0 100 0 0] [])
      (mk_player ''p1'' 0 0 100 0 0) (TapMove (Some (-40)) (Some 0)) 0 some_draws
    = Inr (mk_state [mk_player ''p1'' (-40) 0 100 0 0] [])
   \<and> \<not> (0 \<le> (-40::real))"
  by (simp add: handleClientMessage_def tapMove_def world_defs nsub_def nhypot_def ngt_def)

text \<open>
  A click is an attack or a harvest, never both: when a target player is found the nodes
  are left alone, otherwise only the acting player and the nodes are written.
\<close>

lemma click_attack_or_harvest:
  "click s p mx my now rnd =
     (case find_target (p_id p) mx my (players s) of
        Some other \<Rightarrow> attack s p other rnd
      | None \<Rightarrow> (store s (fst (harvest p mx my now (nodes s))))
                   \<lparr>nodes := snd (harvest p mx my now (nodes s))\<rparr>)"
  "nodes (attack s p other rnd) = nodes s"
  by (simp_all add: click_def attack_def store_def Let_def split: option.splits prod.splits)

text \<open>
  C3. The damage goes to the first other player within 40 units of the click in the
  iteration order of \<open>state.players\<close>, which need not be the nearest one: \<open>p2\<close> at
  distance 30 is hit although \<open>p3\<close> is at distance 10.
\<close>

theorem click_hits_first_not_nearest:
  "handleClientMessage
      (mk_state [mk_player ''p1'' 500 500 100 0 0, mk_player ''p2'' 130 100 100 0 0,
                 mk_player ''p3'' 100 110 100 0 0] [])
      (mk_player ''p1'' 500 500 100 0 0) (Click (Some 100) (Some 100)) 0 some_draws
    = Inr (mk_state [mk_player ''p1'' 500 500 100 0 0, mk_player ''p2'' 130 100 80 0 0,
                     mk_player ''p3'' 100 110 100 0 0] [])
   \<and> hypot (130 - 100) (100 - 100) = 30 \<and> hypot (100 - 100) (110 - 100) = 10"
  by (simp add: handleClientMessage_def click_def attack_def world_defs hypot_lt)

section \<open>Rejected intents\<close>

text \<open>
  C5 (as the code has it). An unparseable payload, a \<open>null\<close> payload and any intent other
  than a join from a connection with no player leave the world entirely unchanged. From a
  bound connection, an input intent without its \<open>keys\<close> (whose \<open>TypeError\<close> is caught), a
  build the actor cannot pay for or whose target is farther than 80, a click that finds
  neither a player nor a node, and a tap-move without a numeric target leave the world
  unchanged except for the acting player's last-active timestamp, which is refreshed
  before the intent is looked at. The handler always returns.
\<close>

theorem invalid_intents_dropped:
  "on_message (pid, s) Unparseable t now rnd = (pid, s)
   \<and> on_message (pid, s) Null t now rnd = (pid, s)
   \<and> ((\<forall>nm. m \<noteq> Join nm) \<and> (pid = None \<or> (\<exists>i. pid = Some i \<and> get_player i (players s) = None))
        \<longrightarrow> on_message (pid, s) (Parsed m) t now rnd = (pid, s))
   \<and> (get_player i (players s) = Some p \<longrightarrow>
        on_message (Some i, s) (Parsed (Input None dt)) t now rnd
          = (Some i, store s (p\<lparr>p_lastActive := t\<rparr>))
        \<and> (\<not> enough p (cost kind)
             \<or> ngt (nhypot (nsub (Some (p_x p)) x) (nsub (Some (p_y p)) y)) 80
           \<longrightarrow> on_message (Some i, s) (Parsed (Place kind x y)) t now rnd
                 = (Some i, store s (p\<lparr>p_lastActive := t\<rparr>)))
        \<and> (find_target i mx my (players s) = None \<and> (\<forall>n\<in>set (nodes s). \<not> qualifies p mx my n)
           \<longrightarrow> on_message (Some i, s) (Parsed (Click mx my)) t now rnd
                 = (Some i, store s (p\<lparr>p_lastActive := t\<rparr>)))
        \<and> (tx = None \<or> ty = None
           \<longrightarrow> on_message (Some i, s) (Parsed (TapMove tx ty)) t now rnd
                 = (Some i, store s (p\<lparr>p_lastActive := t\<rparr>))))"
proof -
  have 1: "on_message (pid, s) Unparseable t now rnd = (pid, s)"
    and 2: "on_message (pid, s) Null t now rnd = (pid, s)"
    by (simp_all add: on_message_def)
  have 3: "on_message (pid, s) (Parsed m) t now rnd = (pid, s)"
    if "\<forall>nm. m \<noteq> Join nm" "pid = None \<or> (\<exists>i. pid = Some i \<and> get_player i (players s) = None)"
    using that by (cases m) (auto simp: on_message_def)
  have 4: "on_message (Some i, s) (Parsed (Input None dt)) t now rnd
          = (Some i, store s (p\<lparr>p_lastActive := t\<rparr>))"
    if "get_player i (players s) = Some p"
    using that by (simp add: bound_step handleClientMessage_def)
  have 5: "on_message (Some i, s) (Parsed (Place kind x y)) t now rnd
                 = (Some i, store s (p\<lparr>p_lastActive := t\<rparr>))"
    if "get_player i (players s) = Some p"
      "\<not> enough p (cost kind) \<or> ngt (nhypot (nsub (Some (p_x p)) x) (nsub (Some (p_y p)) y)) 80"
    using that by (auto simp: bound_step handleClientMessage_def place_def ACTION_RANGE_def Let_def)
  have 6: "on_message (Some i, s) (Parsed (Click mx my)) t now rnd
                 = (Some i, store s (p\<lparr>p_lastActive := t\<rparr>))"
    if g: "get_player i (players s) = Some p"
      and f: "find_target i mx my (players s) = None"
      and q: "\<forall>n\<in>set (nodes s). \<not> qualifies p mx my n"
  proof -
    have id: "p_id p = i" using g by (rule get_player_id)
    have h: "harvest (p\<lparr>p_lastActive := t\<rparr>) mx my now (nodes s) = (p\<lparr>p_lastActive := t\<rparr>, nodes s)"
      using q by (intro harvest_none) simp
    show ?thesis
      using g f id h
      by (simp add: bound_step handleClientMessage_def click_def store_def find_target_put put_put)
  qed
  have 7: "on_message (Some i, s) (Parsed (TapMove tx ty)) t now rnd
                 = (Some i, store s (p\<lparr>p_lastActive := t\<rparr>))"
    if "get_player i (players s) = Some p" "tx = None \<or> ty = None"
    using that
    by (auto simp: bound_step handleClientMessage_def tapMove_def nsub_def nhypot_def ngt_def
        split: option.splits)
  from 1 2 3 4 5 6 7 show ?thesis by blast
qed

text \<open>
  A build that the actor cannot pay for (4 wood, a wall costs 5) is dropped, and the
  world differs from the one before: the last-active timestamp moved from 0 to 1000.
\<close>

theorem invalid_intents_dropped_counterexample:
  "on_message (Some ''p1'', mk_state [mk_player ''p1'' 0 0 100 4 0] [])
      (Parsed (Place (Some ''wall'') (Some 10) (Some 0))) 1000 1000 some_draws
    = (Some ''p1'', mk_state [(mk_player ''p1'' 0 0 100 4 0)\<lparr>p_lastActive := 1000\<rparr>] [])
   \<and> mk_state [(mk_player ''p1'' 0 0 100 4 0)\<lparr>p_lastActive := 1000\<rparr>] []
      \<noteq> mk_state [mk_player ''p1'' 0 0 100 4 0] []"
  by (simp add: on_message_def handleClientMessage_def place_def enough_cost world_defs)

theorem invalid_intents_dropped_witness:
  "on_message (Some ''p1'', mk_state [mk_player ''p1'' 0 0 100 4 0] [])
      (Parsed (Place (Some ''wall'') (Some 10) (Some 0))) 1000 1000 some_draws
    = (Some ''p1'', mk_state [(mk_player ''p1'' 0 0 100 4 0)\<lparr>p_lastActive := 1000\<rparr>] [])
   \<and> on_message (None, mk_state [mk_player ''p1'' 0 0 100 4 0] [])
      (Parsed (Click (Some 10) (Some 0))) 1000 1000 some_draws
    = (None, mk_state [mk_player ''p1'' 0 0 100 4 0] [])
   \<and> on_message (Some ''p1'', mk_state [mk_player ''p1'' 0 0 100 4 0] [])
      (Parsed (Input None (Some 50))) 1000 1000 some_draws
    = (Some ''p1'', mk_state [(mk_player ''p1'' 0 0 100 4 0)\<lparr>p_lastActive := 1000\<rparr>] [])"
  using invalid_intents_dropped [where pid = None and s = "mk_state [mk_player ''p1'' 0 0 100 4 0] []"
      and m = "Click (Some 10) (Some 0)" and i = "''p1''" and p = "mk_player ''p1'' 0 0 100 4 0"
      and kind = "Some ''wall''" and x = "Some 10" and y = "Some 0" and t = 1000 and now = 1000
      and rnd = some_draws and dt = "Some 50"]
  by (simp add: world_defs enough_cost)

text \<open>The only exception \<open>handleClientMessage\<close> raises is the one for the missing \<open>keys\<close>.\<close>

lemma only_missing_keys_throws:
  "handleClientMessage s p m now rnd = Inl e \<longleftrightarrow> (\<exists>dt. m = Input None dt)"
  by (cases m; cases e) (auto simp: handleClientMessage_def split: option.splits)

text \<open>
  A place intent without coordinates is not dropped: the distance is \<open>NaN\<close>, the range
  guard \<open>NaN > 80\<close> is false, and a structure without a position is built and paid for.
\<close>

lemma place_without_target_is_built:
  "handleClientMessage (mk_state [mk_player ''p1'' 0 0 100 5 0] [])
      (mk_player ''p1'' 0 0 100 5 0) (Place (Some ''wall'') None None) 7 some_draws
    = Inr ((mk_state [mk_player ''p1'' 0 0 100 0 0] [])
             \<lparr>buildings := [\<lparr>b_id = ''b7k3f9'', b_kind = ''wall'',
                              b_x = None, b_y = None, b_owner = ''p1''\<rparr>]\<rparr>)"
  by (simp add: handleClientMessage_def place_def enough_cost debit_cost world_defs
      mk_building_id_def dec.simps nsub_def nhypot_def ngt_def)

section \<open>Harvesting and respawn\<close>

text \<open>
  C7. The node loop of a click hands out the yield of a node exactly at the hit that takes
  its \<open>hp\<close> to \<open>\<le> 0\<close>: whenever a live node is depleted by the click, that node had at
  most 15 hp, is left with \<open>hp = 0\<close> and a respawn time of now + 30 s, and the actor
  receives the yield of its type; when no live node is depleted by the click (an earlier
  hit, or no hit) the actor is unchanged. The yields are rock 3 stone, tree 5 wood,
  berry 4 food, wood 8 wood. A depleted node is never touched by the loop, nor by any
  message on any connection, nor by the respawn timer before its respawn time: it stays
  as it is, with \<open>hp = 0\<close>. In the world: a click that finds no player to attack hits the
  first qualifying node; when that node has at most 15 hp it is depleted (\<open>hp = 0\<close>,
  respawn at now + 30 s) and the acting player stored in the world is the actor with the
  yield of the node's type added; when it has more than 15 hp it loses 15 and the stored
  player's inventory is as before. This holds of \<open>handleClientMessage\<close> and of the whole
  message handler, which also refreshes the last-active timestamp. A yield changes the
  inventory and nothing else of the player.
\<close>

theorem depletion_yield_once:
  "(harvest p mx my now ns = (p', ns') \<longrightarrow>
      length ns' = length ns
      \<and> (\<forall>i<length ns. n_hp (ns ! i) \<le> 0 \<longrightarrow> ns' ! i = ns ! i)
      \<and> (\<forall>i<length ns. 0 < n_hp (ns ! i) \<and> n_hp (ns' ! i) \<le> 0 \<longrightarrow>
            n_hp (ns ! i) \<le> 15 \<and> n_hp (ns' ! i) = 0 \<and> n_respawnAt (ns' ! i) = now + 30000
            \<and> p' = grant p (n_type (ns ! i)))
      \<and> ((\<forall>i<length ns. 0 < n_hp (ns ! i) \<longrightarrow> 0 < n_hp (ns' ! i)) \<longrightarrow> p' = p))
   \<and> p_inv (grant p ''rock'') = (p_inv p)\<lparr>stone := stone (p_inv p) + 3\<rparr>
   \<and> p_inv (grant p ''tree'') = (p_inv p)\<lparr>wood := wood (p_inv p) + 5\<rparr>
   \<and> p_inv (grant p ''berry'') = (p_inv p)\<lparr>food := food (p_inv p) + 4\<rparr>
   \<and> p_inv (grant p ''wood'') = (p_inv p)\<lparr>wood := wood (p_inv p) + 8\<rparr>
   \<and> (\<forall>i<length (nodes s). n_hp (nodes s ! i) \<le> 0 \<longrightarrow>
        nodes (snd (on_message (pid, s) data t now rnd)) ! i = nodes s ! i
        \<and> (nowt < n_respawnAt (nodes s ! i) \<longrightarrow>
             nodes (processRespawns nowt ds s) ! i = nodes s ! i))
   \<and> (find_target (p_id p) mx my (players s) = None \<and> nodes s = pre @ n # post
        \<and> (\<forall>m\<in>set pre. \<not> qualifies p mx my m) \<and> qualifies p mx my n \<longrightarrow>
        handleClientMessage s p (Click mx my) now rnd =
          Inr (if n_hp n \<le> 15
               then (store s (grant p (n_type n)))
                      \<lparr>nodes := pre @ n\<lparr>n_respawnAt := now + 30000, n_hp := 0\<rparr> # post\<rparr>
               else (store s p)\<lparr>nodes := pre @ n\<lparr>n_hp := n_hp n - 15\<rparr> # post\<rparr>))
   \<and> (get_player j (players s) = Some p \<and> find_target j mx my (players s) = None
        \<and> nodes s = pre @ n # post
        \<and> (\<forall>m\<in>set pre. \<not> qualifies p mx my m) \<and> qualifies p mx my n \<longrightarrow>
        on_message (Some j, s) (Parsed (Click mx my)) t now rnd =
          (Some j,
           if n_hp n \<le> 15
           then (store s (grant (p\<lparr>p_lastActive := t\<rparr>) (n_type n)))
                  \<lparr>nodes := pre @ n\<lparr>n_respawnAt := now + 30000, n_hp := 0\<rparr> # post\<rparr>
           else (store s (p\<lparr>p_lastActive := t\<rparr>))
                  \<lparr>nodes := pre @ n\<lparr>n_hp := n_hp n - 15\<rparr> # post\<rparr>)
        \<and> get_player j (players (snd (on_message (Some j, s) (Parsed (Click mx my)) t now rnd)))
            = Some (if n_hp n \<le> 15 then grant (p\<lparr>p_lastActive := t\<rparr>) (n_type n)
                    else p\<lparr>p_lastActive := t\<rparr>))
   \<and> grant p ty = p\<lparr>p_inv := p_inv (grant p ty)\<rparr>"
proof -
  have A: "harvest p mx my now ns = (p', ns') \<longrightarrow>
      length ns' = length ns
      \<and> (\<forall>i<length ns. n_hp (ns ! i) \<le> 0 \<longrightarrow> ns' ! i = ns ! i)
      \<and> (\<forall>i<length ns. 0 < n_hp (ns ! i) \<and> n_hp (ns' ! i) \<le> 0 \<longrightarrow>
            n_hp (ns ! i) \<le> 15 \<and> n_hp (ns' ! i) = 0 \<and> n_respawnAt (ns' ! i) = now + 30000
            \<and> p' = grant p (n_type (ns ! i)))
      \<and> ((\<forall>i<length ns. 0 < n_hp (ns ! i) \<longrightarrow> 0 < n_hp (ns' ! i)) \<longrightarrow> p' = p)"
  proof
    assume "harvest p mx my now ns = (p', ns')"
    from harvest_pairs [OF this] show "length ns' = length ns
      \<and> (\<forall>i<length ns. n_hp (ns ! i) \<le> 0 \<longrightarrow> ns' ! i = ns ! i)
      \<and> (\<forall>i<length ns. 0 < n_hp (ns ! i) \<and> n_hp (ns' ! i) \<le> 0 \<longrightarrow>
            n_hp (ns ! i) \<le> 15 \<and> n_hp (ns' ! i) = 0 \<and> n_respawnAt (ns' ! i) = now + 30000
            \<and> p' = grant p (n_type (ns ! i)))
      \<and> ((\<forall>i<length ns. 0 < n_hp (ns ! i) \<longrightarrow> 0 < n_hp (ns' ! i)) \<longrightarrow> p' = p)"
      unfolding list_all2_conv_all_nth by simp
  qed
  have B: "\<forall>i<length (nodes s). n_hp (nodes s ! i) \<le> 0 \<longrightarrow>
        nodes (snd (on_message (pid, s) data t now rnd)) ! i = nodes s ! i
        \<and> (nowt < n_respawnAt (nodes s ! i) \<longrightarrow>
             nodes (processRespawns nowt ds s) ! i = nodes s ! i)"
  proof (intro allI impI conjI)
    fix i assume i: "i < length (nodes s)" and d: "n_hp (nodes s ! i) \<le> 0"
    from on_message_nodes [of pid s data t now rnd] harvest_depleted_same [OF i d]
    show "nodes (snd (on_message (pid, s) data t now rnd)) ! i = nodes s ! i"
      by auto
    assume "nowt < n_respawnAt (nodes s ! i)"
    then show "nodes (processRespawns nowt ds s) ! i = nodes s ! i"
      using i by (simp add: respawn_nth respawn_node_def)
  qed
  have C: "find_target (p_id p) mx my (players s) = None \<and> nodes s = pre @ n # post
        \<and> (\<forall>m\<in>set pre. \<not> qualifies p mx my m) \<and> qualifies p mx my n \<longrightarrow>
        handleClientMessage s p (Click mx my) now rnd =
          Inr (if n_hp n \<le> 15
               then (store s (grant p (n_type n)))
                      \<lparr>nodes := pre @ n\<lparr>n_respawnAt := now + 30000, n_hp := 0\<rparr> # post\<rparr>
               else (store s p)\<lparr>nodes := pre @ n\<lparr>n_hp := n_hp n - 15\<rparr> # post\<rparr>)"
    using click_harvests [of p mx my s pre n post now rnd] by blast
  have D: "get_player j (players s) = Some p \<and> find_target j mx my (players s) = None
        \<and> nodes s = pre @ n # post
        \<and> (\<forall>m\<in>set pre. \<not> qualifies p mx my m) \<and> qualifies p mx my n \<longrightarrow>
        on_message (Some j, s) (Parsed (Click mx my)) t now rnd =
          (Some j,
           if n_hp n \<le> 15
           then (store s (grant (p\<lparr>p_lastActive := t\<rparr>) (n_type n)))
                  \<lparr>nodes := pre @ n\<lparr>n_respawnAt := now + 30000, n_hp := 0\<rparr> # post\<rparr>
           else (store s (p\<lparr>p_lastActive := t\<rparr>))
                  \<lparr>nodes := pre @ n\<lparr>n_hp := n_hp n - 15\<rparr> # post\<rparr>)
        \<and> get_player j (players (snd (on_message (Some j, s) (Parsed (Click mx my)) t now rnd)))
            = Some (if n_hp n \<le> 15 then grant (p\<lparr>p_lastActive := t\<rparr>) (n_type n)
                    else p\<lparr>p_lastActive := t\<rparr>)"
  proof (intro impI, elim conjE)
    assume g: "get_player j (players s) = Some p"
      and f: "find_target j mx my (players s) = None"
      and n: "nodes s = pre @ n # post"
      and pre: "\<forall>m\<in>set pre. \<not> qualifies p mx my m"
      and q: "qualifies p mx my n"
    have id: "p_id p = j" using g by (rule get_player_id)
    note m = message_click_harvests [OF g f n pre q, of t now rnd]
    have "get_player j (players (store s r)) = Some r" if "p_id r = j" for r
      using g that by (simp add: store_def get_put)
    then show "on_message (Some j, s) (Parsed (Click mx my)) t now rnd =
          (Some j,
           if n_hp n \<le> 15
           then (store s (grant (p\<lparr>p_lastActive := t\<rparr>) (n_type n)))
                  \<lparr>nodes := pre @ n\<lparr>n_respawnAt := now + 30000, n_hp := 0\<rparr> # post\<rparr>
           else (store s (p\<lparr>p_lastActive := t\<rparr>))
                  \<lparr>nodes := pre @ n\<lparr>n_hp := n_hp n - 15\<rparr> # post\<rparr>)
        \<and> get_player j (players (snd (on_message (Some j, s) (Parsed (Click mx my)) t now rnd)))
            = Some (if n_hp n \<le> 15 then grant (p\<lparr>p_lastActive := t\<rparr>) (n_type n)
                    else p\<lparr>p_lastActive := t\<rparr>)"
      using id unfolding m by simp
  qed
  have E: "grant p ty = p\<lparr>p_inv := p_inv (grant p ty)\<rparr>"
    by (simp add: grant_def Let_def)
  show ?thesis by (intro conjI A B C D E grant_table)
qed

text \<open>
  A rock with 10 hp left is hit: 3 stone are granted, the rock is depleted until
  30005; the depleted tree beside it is as before, and a respawn run at 30004 leaves a
  depleted rock alone. Through the message handler: a click on the rock at 25 hp leaves
  the player's inventory as it was and the rock at 10 hp, the next click puts the 3 stone
  into the player's inventory in the world.
\<close>

theorem depletion_yield_once_witness:
  "harvest (mk_player ''p1'' 0 0 100 0 0) (Some 10) (Some 0) 5
       [mk_node ''rock'' 10 0 10 0, mk_node ''tree'' 12 0 0 9000]
     = (mk_player ''p1'' 0 0 100 0 3, [mk_node ''rock'' 10 0 0 30005, mk_node ''tree'' 12 0 0 9000])
   \<and> mk_player ''p1'' 0 0 100 0 3 = grant (mk_player ''p1'' 0 0 100 0 0) ''rock''
   \<and> [mk_node ''rock'' 10 0 0 30005, mk_node ''tree'' 12 0 0 9000] ! 1 = mk_node ''tree'' 12 0 0 9000
   \<and> nodes (processRespawns 30004 (\<lambda>i. \<lparr>j_hp = 0, j_x = 0, j_y = 0\<rparr>)
        (mk_state [] [mk_node ''rock'' 10 0 0 30005])) ! 0 = mk_node ''rock'' 10 0 0 30005
   \<and> on_message (Some ''p1'', mk_state [mk_player ''p1'' 0 0 100 0 0]
          [mk_node ''rock'' 10 0 25 0, mk_node ''tree'' 12 0 0 9000])
        (Parsed (Click (Some 10) (Some 0))) 1000 5 some_draws
      = (Some ''p1'', mk_state [(mk_player ''p1'' 0 0 100 0 0)\<lparr>p_lastActive := 1000\<rparr>]
          [mk_node ''rock'' 10 0 10 0, mk_node ''tree'' 12 0 0 9000])
   \<and> on_message (Some ''p1'', mk_state [mk_player ''p1'' 0 0 100 0 0]
          [mk_node ''rock'' 10 0 10 0, mk_node ''tree'' 12 0 0 9000])
        (Parsed (Click (Some 10) (Some 0))) 1000 5 some_draws
      = (Some ''p1'', mk_state [(mk_player ''p1'' 0 0 100 0 3)\<lparr>p_lastActive := 1000\<rparr>]
          [mk_node ''rock'' 10 0 0 30005, mk_node ''tree'' 12 0 0 9000])"
proof -
  let ?p = "mk_player ''p1'' 0 0 100 0 0" and ?p' = "mk_player ''p1'' 0 0 100 0 3"
  let ?ns = "[mk_node ''rock'' 10 0 10 0, mk_node ''tree'' 12 0 0 9000]"
  let ?ns' = "[mk_node ''rock'' 10 0 0 30005, mk_node ''tree'' 12 0 0 9000]"
  let ?s = "mk_state [] [mk_node ''rock'' 10 0 0 30005]"
  note t = depletion_yield_once [where p = ?p and mx = "Some 10" and my = "Some 0" and now = 5
      and ns = ?ns and p' = ?p' and ns' = ?ns' and s = ?s and nowt = 30004
      and ds = "\<lambda>i. \<lparr>j_hp = 0, j_x = 0, j_y = 0\<rparr>"]
  have h: "harvest ?p (Some 10) (Some 0) 5 ?ns = (?p', ?ns')"
    by (simp add: mk_player_def mk_node_def qualifies_def grant_def ACTION_RANGE_def)
  note c = t [THEN conjunct1, THEN mp, OF h]
  have g: "?p' = grant ?p ''rock''"
    using c [THEN conjunct2, THEN conjunct2, THEN conjunct1, rule_format, of 0]
    by (simp add: mk_node_def)
  have d: "?ns' ! 1 = mk_node ''tree'' 12 0 0 9000"
    using c [THEN conjunct2, THEN conjunct1, rule_format, of 1]
    by (simp add: mk_node_def)
  have r: "nodes (processRespawns 30004 (\<lambda>i. \<lparr>j_hp = 0, j_x = 0, j_y = 0\<rparr>) ?s) ! 0
      = mk_node ''rock'' 10 0 0 30005"
    using t [THEN conjunct2, THEN conjunct2, THEN conjunct2, THEN conjunct2, THEN conjunct2,
        THEN conjunct1, rule_format, of 0, THEN conjunct2]
    by (simp add: mk_state_def mk_node_def)
  have q: "qualifies ?p (Some 10) (Some 0) (mk_node ''rock'' 10 0 h 0)" if "0 < h" for h
    using that by (simp add: qualifies_def mk_player_def mk_node_def ACTION_RANGE_def)
  have m: "on_message (Some ''p1'', mk_state [?p] [mk_node ''rock'' 10 0 h 0, mk_node ''tree'' 12 0 0 9000])
        (Parsed (Click (Some 10) (Some 0))) 1000 5 some_draws
      = (Some ''p1'',
         if h \<le> 15
         then mk_state [(mk_player ''p1'' 0 0 100 0 3)\<lparr>p_lastActive := 1000\<rparr>]
                [mk_node ''rock'' 10 0 0 30005, mk_node ''tree'' 12 0 0 9000]
         else mk_state [?p\<lparr>p_lastActive := 1000\<rparr>]
                [mk_node ''rock'' 10 0 (h - 15) 0, mk_node ''tree'' 12 0 0 9000])"
    if "0 < h" for h
    using depletion_yield_once [where p = ?p and j = "''p1''" and mx = "Some 10" and my = "Some 0" and now = 5
        and s = "mk_state [?p] [mk_node ''rock'' 10 0 h 0, mk_node ''tree'' 12 0 0 9000]"
        and pre = "[]" and n = "mk_node ''rock'' 10 0 h 0"
        and post = "[mk_node ''tree'' 12 0 0 9000]" and t = 1000 and rnd = some_draws,
        THEN conjunct2, THEN conjunct2, THEN conjunct2, THEN conjunct2, THEN conjunct2,
        THEN conjunct2, THEN conjunct2, THEN conjunct1, THEN mp, THEN conjunct1]
      q [OF that]
    by (simp add: mk_state_def mk_player_def mk_node_def store_def put_player_def get_player_def
        grant_def)
  from h g d r m [of 25] m [of 10] show ?thesis by simp
qed

text \<open>
  C8. In every reachable world (the seeded world, and after any message, closed
  connection or run of the respawn timer) every node has exactly one of \<open>hp > 0\<close> and a set
  (non-zero) respawn timestamp.
\<close>

theorem node_live_xor_pending:
  "reachable s \<Longrightarrow> \<forall>n\<in>set (nodes s). (0 < n_hp n) \<noteq> (n_respawnAt n \<noteq> 0)"
  using reachable_nodes_ok [of s] by (simp add: node_ok_def)

theorem node_live_xor_pending_witness:
  "reachable (processRespawns 5 (\<lambda>i. \<lparr>j_hp = 0, j_x = 0, j_y = 0\<rparr>) (init_state mid_seed))
   \<and> ((0 < n_hp (nodes (processRespawns 5 (\<lambda>i. \<lparr>j_hp = 0, j_x = 0, j_y = 0\<rparr>) (init_state mid_seed)) ! 0))
       \<noteq> (n_respawnAt (nodes (processRespawns 5 (\<lambda>i. \<lparr>j_hp = 0, j_x = 0, j_y = 0\<rparr>) (init_state mid_seed)) ! 0) \<noteq> 0))"
proof -
  let ?s = "processRespawns 5 (\<lambda>i. \<lparr>j_hp = 0, j_x = 0, j_y = 0\<rparr>) (init_state mid_seed)"
  have r: "reachable ?s"
    by (intro reachable.respawns reachable.seeded mid_seed_unit) (simp add: unit_draw_def)
  have "0 < length (nodes ?s)"
    by (simp add: processRespawns_def init_state_def seedNodes_def empty_state_def)
  then have "nodes ?s ! 0 \<in> set (nodes ?s)" by (rule nth_mem)
  with node_live_xor_pending [OF r] r show ?thesis by blast
qed

end
